theory Spec2Isabelle
  imports Complex_Main "HOL-Library.Signed_Division" "HOL-Library.Sublist" "HOL-Library.AList"
begin

section \<open>JavaScript values used by the translation relay\<close>

text \<open>
  A JavaScript number is either \<open>NaN\<close> or a finite value. Finite values are kept exact
  (rationals): the wall-clock readings, counters and token amounts of this program are
  integers below \<open>2^53\<close> or small multiples of \<open>1/1000\<close>. The infinities are not
  represented; the only divisions of the program are by the non-zero constants 1000 and 60.
\<close>

datatype number = NaN | Num rat

definition num_lt :: "number \<Rightarrow> number \<Rightarrow> bool" where
  "num_lt a b = (case (a, b) of (Num x, Num y) \<Rightarrow> x < y | _ \<Rightarrow> False)"

definition num_le :: "number \<Rightarrow> number \<Rightarrow> bool" where
  "num_le a b = (case (a, b) of (Num x, Num y) \<Rightarrow> x \<le> y | _ \<Rightarrow> False)"

definition num_add :: "number \<Rightarrow> number \<Rightarrow> number" where
  "num_add a b = (case (a, b) of (Num x, Num y) \<Rightarrow> Num (x + y) | _ \<Rightarrow> NaN)"

definition num_sub :: "number \<Rightarrow> number \<Rightarrow> number" where
  "num_sub a b = (case (a, b) of (Num x, Num y) \<Rightarrow> Num (x - y) | _ \<Rightarrow> NaN)"

definition num_mul :: "number \<Rightarrow> number \<Rightarrow> number" where
  "num_mul a b = (case (a, b) of (Num x, Num y) \<Rightarrow> Num (x * y) | _ \<Rightarrow> NaN)"

text \<open>Division by a non-zero constant (\<open>x / 60\<close>, \<open>x / 1000\<close>).\<close>

definition num_div :: "number \<Rightarrow> rat \<Rightarrow> number" where
  "num_div a c = (case a of Num x \<Rightarrow> Num (x / c) | NaN \<Rightarrow> NaN)"

text \<open>\<open>Math.min\<close>: \<open>NaN\<close> as soon as one argument is \<open>NaN\<close>.\<close>

definition Math_min :: "number \<Rightarrow> number \<Rightarrow> number" where
  "Math_min a b = (case (a, b) of (Num x, Num y) \<Rightarrow> Num (min x y) | _ \<Rightarrow> NaN)"

definition isInteger :: "number \<Rightarrow> bool" where
  "isInteger a = (case a of Num x \<Rightarrow> of_int \<lfloor>x\<rfloor> = x | NaN \<Rightarrow> False)"

text \<open>
  The values an \<open>any\<close>-typed field (\<open>error.status\<close>, \<open>error.code\<close>, a property read
  from a foreign object) can hold. An object or array carries the number that
  \<open>Number()\<close> converts it to (\<open>Number([404])\<close> is 404, \<open>Number({})\<close> is NaN).
\<close>

datatype jsvalue =
    Undefined
  | Null
  | Boolean bool
  | Number number
  | String string
  | Object number

definition truthy :: "jsvalue \<Rightarrow> bool" where
  "truthy v = (case v of
       Undefined \<Rightarrow> False
     | Null \<Rightarrow> False
     | Boolean b \<Rightarrow> b
     | Number NaN \<Rightarrow> False
     | Number (Num x) \<Rightarrow> x \<noteq> 0
     | String s \<Rightarrow> s \<noteq> []
     | Object _ \<Rightarrow> True)"

text \<open>
  \<open>Number(v)\<close>. The conversion of a string is the platform's numeric-literal parser and
  is taken as the parameter \<open>parse\<close>.
\<close>

definition toNumber :: "(string \<Rightarrow> number) \<Rightarrow> jsvalue \<Rightarrow> number" where
  "toNumber parse v = (case v of
       Undefined \<Rightarrow> NaN
     | Null \<Rightarrow> Num 0
     | Boolean b \<Rightarrow> Num (if b then 1 else 0)
     | Number n \<Rightarrow> n
     | String s \<Rightarrow> parse s
     | Object n \<Rightarrow> n)"

text \<open>\<open>xs.includes(v)\<close> for an array of number literals: only a number can be a member.\<close>

definition includes_number :: "rat list \<Rightarrow> jsvalue \<Rightarrow> bool" where
  "includes_number xs v = (case v of Number (Num x) \<Rightarrow> x \<in> set xs | _ \<Rightarrow> False)"

subsection \<open>Strings\<close>

text \<open>
  \<open>toUpperCase\<close> and \<open>toLowerCase\<close> on the ASCII letters; other characters are left as
  they are.
\<close>

definition upper_char :: "char \<Rightarrow> char" where
  "upper_char c =
     (case map_of (zip ''abcdefghijklmnopqrstuvwxyz'' ''ABCDEFGHIJKLMNOPQRSTUVWXYZ'') c of
        Some u \<Rightarrow> u | None \<Rightarrow> c)"

definition lower_char :: "char \<Rightarrow> char" where
  "lower_char c =
     (case map_of (zip ''ABCDEFGHIJKLMNOPQRSTUVWXYZ'' ''abcdefghijklmnopqrstuvwxyz'') c of
        Some l \<Rightarrow> l | None \<Rightarrow> c)"

definition toUpperCase :: "string \<Rightarrow> string" where
  "toUpperCase s = map upper_char s"

definition toLowerCase :: "string \<Rightarrow> string" where
  "toLowerCase s = map lower_char s"

text \<open>\<open>hay.includes(needle)\<close> on strings.\<close>

definition includes_str :: "string \<Rightarrow> string \<Rightarrow> bool" where
  "includes_str hay needle = list_ex (prefix needle) (suffixes hay)"

text \<open>\<open>s.split(sep)\<close> for a one-character separator.\<close>

fun split_on :: "char \<Rightarrow> string \<Rightarrow> string list" where
  "split_on sep [] = [[]]"
| "split_on sep (c # cs) =
     (if c = sep then [] # split_on sep cs
      else (case split_on sep cs of
              [] \<Rightarrow> [[c]]
            | p # ps \<Rightarrow> (c # p) # ps))"

subsection \<open>Thrown values\<close>

text \<open>
  An \<open>Error\<close> object with the ad hoc \<open>status\<close> and \<open>code\<close> fields the program attaches.
  A thrown value is \<open>jserror option\<close> where it can be \<open>undefined\<close>.
\<close>

record jserror =
  name :: string
  message :: string
  status :: jsvalue
  code :: jsvalue

definition Error :: "string \<Rightarrow> jserror" where
  "Error msg = \<lparr>name = ''Error'', message = msg, status = Undefined, code = Undefined\<rparr>"

definition TypeError :: "string \<Rightarrow> jserror" where
  "TypeError msg = \<lparr>name = ''TypeError'', message = msg, status = Undefined, code = Undefined\<rparr>"

section \<open>types.ts: the standard response\<close>

text \<open>
  A language argument is typed \<open>string\<close>, but \<open>normalizeLanguageCode\<close> reads its table with
  \<open>languageMap[normalized]\<close> on a plain object, so for the keys every object inherits it
  hands back that inherited member (a function or object) instead of a string.
\<close>

datatype langcode = LangString string | LangObject

record ResponseParams =
  r_code :: number
  r_data :: "string option"
  r_id :: number
  r_source_lang :: "string option"
  r_target_lang :: "string option"

text \<open>\<open>(lang || dflt).toUpperCase()\<close>; calling a missing method throws a TypeError.\<close>

definition upper_or_default :: "langcode option \<Rightarrow> string \<Rightarrow> jserror + string" where
  "upper_or_default lang dflt = (case lang of
       None \<Rightarrow> Inr (toUpperCase dflt)
     | Some (LangString s) \<Rightarrow> Inr (toUpperCase (if s = [] then dflt else s))
     | Some LangObject \<Rightarrow> Inl (TypeError ''toUpperCase is not a function''))"

text \<open>
  \<open>createStandardResponse(code, data, id?, source_lang?, target_lang?)\<close>; \<open>rnd\<close> is the
  draw of \<open>Math.random()\<close>.
\<close>

definition createStandardResponse ::
  "rat \<Rightarrow> number \<Rightarrow> string option \<Rightarrow> number option \<Rightarrow> langcode option \<Rightarrow> langcode option
     \<Rightarrow> jserror + ResponseParams" where
  "createStandardResponse rnd c d i src tgt =
     (let responseId = (case i of
                          Some (Num x) \<Rightarrow> if x \<noteq> 0 then Num x else Num (of_int \<lfloor>rnd * 10000000000\<rfloor>)
                        | _ \<Rightarrow> Num (of_int \<lfloor>rnd * 10000000000\<rfloor>))
      in if c \<noteq> Num 200 then
           Inr \<lparr>r_code = c, r_data = None, r_id = responseId,
                r_source_lang = None, r_target_lang = None\<rparr>
         else
           (case upper_or_default src ''AUTO'' of
              Inl e \<Rightarrow> Inl e
            | Inr s \<Rightarrow>
                (case upper_or_default tgt ''EN'' of
                   Inl e \<Rightarrow> Inl e
                 | Inr t \<Rightarrow>
                     Inr \<lparr>r_code = c, r_data = d, r_id = responseId,
                          r_source_lang = Some s, r_target_lang = Some t\<rparr>)))"

section \<open>errorHandler.ts\<close>

definition isValidHttpStatusCode :: "(string \<Rightarrow> number) \<Rightarrow> jsvalue \<Rightarrow> bool" where
  "isValidHttpStatusCode parse v =
     (let numCode = toNumber parse v
      in numCode \<noteq> NaN \<and> num_le (Num 200) numCode \<and> num_le numCode (Num 599) \<and> isInteger numCode)"

definition sanitizeStatusCode :: "(string \<Rightarrow> number) \<Rightarrow> jsvalue \<Rightarrow> number" where
  "sanitizeStatusCode parse v =
     (let numCode = toNumber parse v
      in if isValidHttpStatusCode parse (Number numCode) then numCode
         else if v = Number (Num 5) \<or> v = String ''5'' then Num 500
         else Num 500)"

text \<open>
  \<open>createErrorResponse(error, context).httpStatus\<close>. \<open>logError\<close> only reads
  \<open>error?.status\<close> and \<open>error?.code\<close> (both \<open>undefined\<close> when the thrown value is
  \<open>undefined\<close>) and writes a log line.
\<close>

definition createErrorResponse_httpStatus :: "(string \<Rightarrow> number) \<Rightarrow> jserror option \<Rightarrow> number" where
  "createErrorResponse_httpStatus parse err =
     (let st = (case err of None \<Rightarrow> Undefined | Some e \<Rightarrow> status e);
          cd = (case err of None \<Rightarrow> Undefined | Some e \<Rightarrow> code e)
      in if truthy st then sanitizeStatusCode parse st
         else if truthy cd then sanitizeStatusCode parse cd
         else Num 500)"

section \<open>config.ts and const.ts\<close>

definition REQUEST_TIMEOUT :: int where
  "REQUEST_TIMEOUT = 10000"

definition API_URL :: string where
  "API_URL = ''https://www2.deepl.com/jsonrpc''"

definition PROXY_TOKENS_PER_SECOND :: rat where
  "PROXY_TOKENS_PER_SECOND = 8"

definition PROXY_MAX_TOKENS :: rat where
  "PROXY_MAX_TOKENS = 16"

definition BASE_TOKENS_PER_MINUTE :: rat where
  "BASE_TOKENS_PER_MINUTE = 480"

definition MAX_TEXT_LENGTH :: nat where
  "MAX_TEXT_LENGTH = 5000"

definition MAX_REQUEST_SIZE :: nat where
  "MAX_REQUEST_SIZE = 32768"

record RateLimits =
  TOKENS_PER_MINUTE :: number
  REFILL_RATE :: number

text \<open>
  \<open>calculateDynamicRateLimits(proxyCount)\<close>. The parameter is typed \<open>number\<close>; \<open>None\<close> is the
  value \<open>undefined\<close>, which \<open>===\<close> tells from 0 and which multiplies to \<open>NaN\<close>.
\<close>

definition calculateDynamicRateLimits :: "number option \<Rightarrow> RateLimits" where
  "calculateDynamicRateLimits proxyCount =
     (if proxyCount = Some (Num 0) then
        \<lparr>TOKENS_PER_MINUTE = Num BASE_TOKENS_PER_MINUTE,
         REFILL_RATE = num_div (Num BASE_TOKENS_PER_MINUTE) 60\<rparr>
      else
        (let tokensPerMinute =
               num_mul (num_mul (case proxyCount of Some n \<Rightarrow> n | None \<Rightarrow> NaN)
                                (Num PROXY_TOKENS_PER_SECOND)) (Num 60)
         in \<lparr>TOKENS_PER_MINUTE = tokensPerMinute, REFILL_RATE = num_div tokensPerMinute 60\<rparr>))"

section \<open>retryLogic.ts\<close>

record 'e RetryOptions =
  maxRetries :: int
  initialDelay :: rat
  backoffFactor :: rat
  isRetryable :: "'e \<Rightarrow> bool"

text \<open>
  The delay computed after a retryable failure of attempt \<open>attempt\<close>:
  \<open>initialDelay * Math.pow(backoffFactor, attempt)\<close>, in milliseconds.
\<close>

definition backoffDelay :: "'e RetryOptions \<Rightarrow> nat \<Rightarrow> rat" where
  "backoffDelay options attempt = initialDelay options * backoffFactor options ^ attempt"

text \<open>
  The \<open>for\<close> loop of \<open>retryWithBackoff\<close>. The operation is a state transformer (its calls
  are visible in the state it returns); the result is what the function returns
  (\<open>Inr\<close>) or throws (\<open>Inl\<close>, \<open>None\<close> being \<open>undefined\<close>), the final state and the delays
  waited, in order.
\<close>

function retry_loop ::
  "('s \<Rightarrow> ('e + 'a) \<times> 's) \<Rightarrow> 'e RetryOptions \<Rightarrow> nat \<Rightarrow> 'e option \<Rightarrow> 's \<Rightarrow> rat list
     \<Rightarrow> ('e option + 'a) \<times> 's \<times> rat list" where
  "retry_loop operation options attempt lastError s ds =
     (if int attempt < maxRetries options then
        (case operation s of
           (Inr v, s') \<Rightarrow> (Inr v, s', ds)
         | (Inl e, s') \<Rightarrow>
             if isRetryable options e then
               retry_loop operation options (Suc attempt) (Some e) s'
                 (ds @ [backoffDelay options attempt])
             else (Inl (Some e), s', ds))
      else (Inl lastError, s, ds))"
  by pat_completeness auto
termination
  by (relation "measure (\<lambda>(operation, options, attempt, lastError, s, ds).
                  nat (maxRetries options - int attempt))") auto

definition retryWithBackoff ::
  "('s \<Rightarrow> ('e + 'a) \<times> 's) \<Rightarrow> 'e RetryOptions \<Rightarrow> 's \<Rightarrow> ('e option + 'a) \<times> 's \<times> rat list" where
  "retryWithBackoff operation options s = retry_loop operation options 0 None s []"

definition isRetryableError :: "jserror \<Rightarrow> bool" where
  "isRetryableError error =
     (if name error = ''AbortError''
         \<or> (name error = ''TypeError'' \<and> includes_str (message error) ''fetch'') then True
      else if truthy (status error) then
        includes_number [408, 429, 500, 502, 503, 504] (status error)
      else if truthy (code error) then
        includes_number [429, 500, 502, 503, 504] (code error)
      else False)"

definition DEFAULT_RETRY_CONFIG :: "jserror RetryOptions" where
  "DEFAULT_RETRY_CONFIG =
     \<lparr>maxRetries = 3, initialDelay = 1000, backoffFactor = 2, isRetryable = isRetryableError\<rparr>"

text \<open>
  An operation given by the outcomes of its successive calls; its state is the number of
  calls made so far.
\<close>

definition counted :: "(nat \<Rightarrow> 'e + 'a) \<Rightarrow> nat \<Rightarrow> ('e + 'a) \<times> nat" where
  "counted outcomes n = (outcomes n, Suc n)"

section \<open>circuitBreaker.ts\<close>

datatype breaker_state = CLOSED | OPEN | HALF_OPEN

record CircuitBreakerState =
  state :: breaker_state
  failureCount :: nat
  lastFailureTime :: int
  successCount :: nat

definition FAILURE_THRESHOLD :: nat where
  "FAILURE_THRESHOLD = 5"

definition RECOVERY_TIMEOUT :: int where
  "RECOVERY_TIMEOUT = 30000"

definition SUCCESS_THRESHOLD :: nat where
  "SUCCESS_THRESHOLD = 3"

definition initial_breaker :: CircuitBreakerState where
  "initial_breaker = \<lparr>state = CLOSED, failureCount = 0, lastFailureTime = 0, successCount = 0\<rparr>"

definition onSuccess :: "CircuitBreakerState \<Rightarrow> CircuitBreakerState" where
  "onSuccess b =
     (if state b = HALF_OPEN then
        (let b1 = b\<lparr>successCount := successCount b + 1\<rparr>
         in if successCount b1 \<ge> SUCCESS_THRESHOLD
            then b1\<lparr>state := CLOSED, failureCount := 0\<rparr> else b1)
      else if state b = CLOSED then b\<lparr>failureCount := 0\<rparr>
      else b)"

definition onFailure :: "int \<Rightarrow> CircuitBreakerState \<Rightarrow> CircuitBreakerState" where
  "onFailure now b =
     (let b1 = b\<lparr>failureCount := failureCount b + 1, lastFailureTime := now\<rparr>
      in if failureCount b1 \<ge> FAILURE_THRESHOLD then b1\<lparr>state := OPEN\<rparr> else b1)"

text \<open>
  The guard at the head of \<open>execute\<close>: \<open>None\<close> when it throws "Circuit breaker is OPEN",
  otherwise the state with which the operation is started.
\<close>

definition admit :: "int \<Rightarrow> CircuitBreakerState \<Rightarrow> CircuitBreakerState option" where
  "admit now b =
     (if state b = OPEN then
        (if now - lastFailureTime b > RECOVERY_TIMEOUT
         then Some (b\<lparr>state := HALF_OPEN, successCount := 0\<rparr>)
         else None)
      else Some b)"

datatype 'e breaker_error = CircuitOpenError | OperationError 'e

text \<open>
  \<open>execute(operation)\<close>: \<open>now\<close> is the clock at the guard, \<open>now'\<close> the clock read by
  \<open>onFailure\<close>. The operation transforms a state \<open>'w\<close> of its own, so that whether it
  was invoked can be read off the result.
\<close>

definition execute ::
  "('w \<Rightarrow> ('e + 'a) \<times> 'w) \<Rightarrow> int \<Rightarrow> int \<Rightarrow> CircuitBreakerState \<Rightarrow> 'w
     \<Rightarrow> ('e breaker_error + 'a) \<times> CircuitBreakerState \<times> 'w" where
  "execute operation now now' b w =
     (case admit now b of
        None \<Rightarrow> (Inl CircuitOpenError, b, w)
      | Some b1 \<Rightarrow>
          (case operation w of
             (Inr v, w') \<Rightarrow> (Inr v, onSuccess b1, w')
           | (Inl e, w') \<Rightarrow> (Inl (OperationError e), onFailure now' b1, w')))"

text \<open>
  The states a breaker can be in. Operations started through \<open>execute\<close> may overlap
  (each awaits its operation), so the guard and the two callbacks are taken as the
  atomic steps, in any order.
\<close>

inductive reachable :: "CircuitBreakerState \<Rightarrow> bool" where
  init: "reachable initial_breaker"
| guard: "reachable b \<Longrightarrow> admit now b = Some b' \<Longrightarrow> reachable b'"
| success: "reachable b \<Longrightarrow> reachable (onSuccess b)"
| failure: "reachable b \<Longrightarrow> reachable (onFailure now b)"

text \<open>The process-wide registry \<open>circuitBreakers\<close> and \<open>getCircuitBreaker\<close>.\<close>

type_synonym registry = "(string \<times> CircuitBreakerState) list"

definition getCircuitBreaker :: "string \<Rightarrow> registry \<Rightarrow> CircuitBreakerState \<times> registry" where
  "getCircuitBreaker proxyUrl reg =
     (case map_of reg proxyUrl of
        Some b \<Rightarrow> (b, reg)
      | None \<Rightarrow> (initial_breaker, reg @ [(proxyUrl, initial_breaker)]))"

section \<open>proxyManager.ts\<close>

record Env =
  PROXY_URLS :: "string option"

record ProxyEndpoint =
  url :: string

text \<open>The value an \<open>async\<close> function hands to its caller, and what \<open>await\<close> makes of it.\<close>

datatype 'a promise = Promise 'a

fun await :: "'a promise \<Rightarrow> 'a" where
  "await (Promise x) = x"

text \<open>
  Reading \<open>.length\<close> on the promise itself, with no \<open>await\<close>: a promise object has no such
  property, so the read gives \<open>undefined\<close> (\<open>None\<close>) whatever the promise resolves to.
\<close>

definition promise_length :: "'a promise \<Rightarrow> number option" where
  "promise_length p = None"

definition isspace :: "char \<Rightarrow> bool" where
  "isspace c = (c \<in> set [CHR '' '', CHR 0x09, CHR 0x0A, CHR 0x0B, CHR 0x0C, CHR 0x0D])"

definition trim :: "string \<Rightarrow> string" where
  "trim s = rev (dropWhile isspace (rev (dropWhile isspace s)))"

definition getProxyEndpoints :: "Env \<Rightarrow> ProxyEndpoint list promise" where
  "getProxyEndpoints env =
     Promise (case PROXY_URLS env of
                None \<Rightarrow> []
              | Some s \<Rightarrow> if s = [] then []
                          else map (\<lambda>u. \<lparr>url = trim u\<rparr>) (split_on CHR '','' s))"

text \<open>\<open>selectProxy(env)\<close>; \<open>rnd\<close> is the draw of \<open>Math.random()\<close>.\<close>

definition selectProxy :: "Env \<Rightarrow> rat \<Rightarrow> ProxyEndpoint option" where
  "selectProxy env rnd =
     (let proxies = await (getProxyEndpoints env)
      in if length proxies = 0 then None
         else (let index = \<lfloor>rnd * of_nat (length proxies)\<rfloor>
               in if 0 \<le> index \<and> nat index < length proxies
                  then Some (proxies ! nat index) else None))"

section \<open>rateLimit.ts\<close>

text \<open>\<open>getDynamicRateLimits(env)\<close> calls the \<open>async\<close> \<open>getProxyEndpoints\<close> and reads
  \<open>.length\<close> of what it returns.\<close>

definition getDynamicRateLimits :: "Env \<Rightarrow> RateLimits" where
  "getDynamicRateLimits env = calculateDynamicRateLimits (promise_length (getProxyEndpoints env))"

record bucket =
  tokens :: number
  lastRefill :: int
  lastUpdate :: int

record RateLimitEntry =
  kv_tokens :: number
  kv_lastRefill :: int

text \<open>
  The durable store is outside the program. A read is one of: the call throws, or it
  yields the stored entry or \<open>null\<close>. A write is fire-and-forget; only a \<open>put\<close> that
  throws synchronously (no usable binding) reaches the enclosing \<open>catch\<close>.
\<close>

datatype kv_read = KvThrows | KvValue "RateLimitEntry option"

record kv_env =
  kv_get :: kv_read
  kv_put_throws :: bool

record limiter =
  rateLimitCache :: "(string \<times> bucket) list"
  kvPuts :: "(string \<times> RateLimitEntry) list"

definition RATE_CACHE_TTL :: int where
  "RATE_CACHE_TTL = 5000"

text \<open>\<open>Math.min(maxTokens, tokens + timePassed * refillRate)\<close> with
  \<open>timePassed = (now - lastRefill) / 1000\<close>.\<close>

definition refill :: "number \<Rightarrow> number \<Rightarrow> int \<Rightarrow> number \<Rightarrow> int \<Rightarrow> number" where
  "refill maxTokens rate now tok refilled =
     Math_min maxTokens (num_add tok (num_mul (Num (of_int (now - refilled) / 1000)) rate))"

text \<open>
  The body shared, word for word, by \<open>checkRateLimit\<close> and \<open>checkProxyRateLimit\<close>; they
  differ in the key prefix and in where \<open>maxTokens\<close> and the refill rate come from.
  \<open>cacheSet\<close> is \<open>rateLimitCache.set(key, {tokens, lastRefill: now, lastUpdate: now})\<close>
  and \<open>kvPut\<close> the write \<open>RATE_LIMIT_KV.put(key, {tokens, lastRefill: now})\<close>. A
  \<open>put\<close> that throws is caught by the enclosing \<open>catch\<close>, which returns \<open>true\<close>.
\<close>

definition cacheSet :: "string \<Rightarrow> number \<Rightarrow> int \<Rightarrow> limiter \<Rightarrow> limiter" where
  "cacheSet key toks now st =
     st\<lparr>rateLimitCache :=
          AList.update key \<lparr>tokens = toks, lastRefill = now, lastUpdate = now\<rparr>
            (rateLimitCache st)\<rparr>"

definition kvPut :: "string \<Rightarrow> number \<Rightarrow> int \<Rightarrow> limiter \<Rightarrow> limiter" where
  "kvPut key toks now st =
     st\<lparr>kvPuts := kvPuts st @ [(key, \<lparr>kv_tokens = toks, kv_lastRefill = now\<rparr>)]\<rparr>"

definition bucketCheck ::
  "string \<Rightarrow> number \<Rightarrow> number \<Rightarrow> int \<Rightarrow> kv_env \<Rightarrow> limiter \<Rightarrow> bool \<times> limiter" where
  "bucketCheck key maxTokens rate now kv st =
     (let fromKV = (case kv_get kv of
                      KvValue (Some existing) \<Rightarrow>
                        refill maxTokens rate now (kv_tokens existing) (kv_lastRefill existing)
                    | _ \<Rightarrow> maxTokens);
          toks = (case map_of (rateLimitCache st) key of
                    Some cached \<Rightarrow>
                      if now - lastUpdate cached < RATE_CACHE_TTL
                      then refill maxTokens rate now (tokens cached) (lastRefill cached)
                      else fromKV
                  | None \<Rightarrow> fromKV)
      in if num_lt toks (Num 1) then
           (let st1 = cacheSet key toks now st
            in if kv_put_throws kv then (True, st1)
               else (False, kvPut key toks now st1))
         else
           (let left = num_sub toks (Num 1);
                st1 = cacheSet key left now st
            in if kv_put_throws kv then (True, st1)
               else (True, kvPut key left now st1)))"

definition checkRateLimit :: "string \<Rightarrow> Env \<Rightarrow> int \<Rightarrow> kv_env \<Rightarrow> limiter \<Rightarrow> bool \<times> limiter" where
  "checkRateLimit clientIP env now kv st =
     (let rateLimits = getDynamicRateLimits env
      in bucketCheck (''rate_limit:'' @ clientIP)
           (TOKENS_PER_MINUTE rateLimits) (REFILL_RATE rateLimits) now kv st)"

definition checkProxyRateLimit :: "string \<Rightarrow> int \<Rightarrow> kv_env \<Rightarrow> limiter \<Rightarrow> bool \<times> limiter" where
  "checkProxyRateLimit proxyUrl now kv st =
     bucketCheck (''proxy_rate_limit:'' @ proxyUrl)
       (Num PROXY_MAX_TOKENS) (Num PROXY_TOKENS_PER_SECOND) now kv st"

definition cleanupCacheIfNeeded :: "int \<Rightarrow> limiter \<Rightarrow> limiter" where
  "cleanupCacheIfNeeded now st =
     (if length (rateLimitCache st) > 100
      then st\<lparr>rateLimitCache :=
                 filter (\<lambda>(k, entry). \<not> now - lastUpdate entry > RATE_CACHE_TTL * 2)
                   (rateLimitCache st)\<rparr>
      else st)"

record RateLimitResult =
  allowed :: bool
  reason :: "string option"

record limiter_env =
  now_cleanup :: int
  now_client :: int
  kv_client :: kv_env
  now_proxy :: int
  kv_proxy :: kv_env

definition checkCombinedRateLimit ::
  "string \<Rightarrow> string \<Rightarrow> Env \<Rightarrow> limiter_env \<Rightarrow> limiter \<Rightarrow> RateLimitResult \<times> limiter" where
  "checkCombinedRateLimit clientIP endpoint env le st =
     (let st0 = cleanupCacheIfNeeded (now_cleanup le) st;
          (clientAllowed, st1) = checkRateLimit clientIP env (now_client le) (kv_client le) st0
      in if \<not> clientAllowed then
           (\<lparr>allowed = False, reason = Some ''Client rate limit exceeded''\<rparr>, st1)
         else if endpoint \<noteq> [] \<and> endpoint \<noteq> ''https://www2.deepl.com/jsonrpc'' then
           (let (proxyAllowed, st2) = checkProxyRateLimit endpoint (now_proxy le) (kv_proxy le) st1
            in if \<not> proxyAllowed then
                 (\<lparr>allowed = False, reason = Some ''Proxy rate limit exceeded''\<rparr>, st2)
               else (\<lparr>allowed = True, reason = None\<rparr>, st2))
         else (\<lparr>allowed = True, reason = None\<rparr>, st1))"

section \<open>cache.ts\<close>

record CacheEntry =
  data :: string
  timestamp :: number
  ce_source_lang :: string
  ce_target_lang :: string
  ce_id :: number

definition CACHE_TTL :: int where
  "CACHE_TTL = 3600"

datatype cache_read = CacheKvThrows | CacheKvValue "CacheEntry option"

text \<open>\<open>Date.now() - entry.timestamp < CACHE_TTL * 1000\<close>.\<close>

definition fresh :: "int \<Rightarrow> CacheEntry \<Rightarrow> bool" where
  "fresh now entry =
     num_lt (num_sub (Num (of_int now)) (timestamp entry)) (Num (of_int (CACHE_TTL * 1000)))"

text \<open>
  \<open>getCachedTranslation(key, env)\<close>: \<open>now\<close> and \<open>now'\<close> are the two clock readings (before
  and after the durable read), \<open>kv\<close> what the durable read does.
\<close>

definition getCachedTranslation ::
  "string \<Rightarrow> int \<Rightarrow> int \<Rightarrow> cache_read \<Rightarrow> (string \<times> CacheEntry) list
     \<Rightarrow> CacheEntry option \<times> (string \<times> CacheEntry) list" where
  "getCachedTranslation key now now' kv memoryCache =
     (let fromKV = (case kv of
                      CacheKvValue (Some kvResult) \<Rightarrow>
                        if fresh now' kvResult
                        then (Some kvResult, AList.update key kvResult memoryCache)
                        else (None, memoryCache)
                    | _ \<Rightarrow> (None, memoryCache))
      in case map_of memoryCache key of
           Some memoryResult \<Rightarrow>
             if fresh now memoryResult then (Some memoryResult, memoryCache) else fromKV
         | None \<Rightarrow> fromKV)"

section \<open>query.ts\<close>

record RequestParams =
  rq_text :: string
  source_lang :: string
  target_lang :: string

record Config =
  proxyEndpoint :: "string option"
  clientIP :: "string option"
  env :: "Env option"

definition languageMap :: "(string \<times> string) list" where
  "languageMap =
     [(''chinese'', ''ZH''), (''english'', ''EN''), (''spanish'', ''ES''), (''french'', ''FR''),
      (''german'', ''DE''), (''italian'', ''IT''), (''japanese'', ''JA''),
      (''portuguese'', ''PT''), (''russian'', ''RU''), (''dutch'', ''NL''), (''polish'', ''PL''),
      (''swedish'', ''SV''), (''danish'', ''DA''), (''norwegian'', ''NB''), (''finnish'', ''FI''),
      (''czech'', ''CS''), (''slovak'', ''SK''), (''slovenian'', ''SL''), (''estonian'', ''ET''),
      (''latvian'', ''LV''), (''lithuanian'', ''LT''), (''hungarian'', ''HU''),
      (''romanian'', ''RO''), (''bulgarian'', ''BG''), (''greek'', ''EL''), (''turkish'', ''TR''),
      (''ukrainian'', ''UK''), (''korean'', ''KO''), (''indonesian'', ''ID'')]"

text \<open>
  The members that the object literal \<open>languageMap\<close> inherits and that a lower-cased key
  can name: \<open>languageMap[''constructor'']\<close> is a function and \<open>languageMap[''__proto__'']\<close>
  an object, both truthy (the other inherited names contain capitals).
\<close>

definition inheritedKeys :: "string list" where
  "inheritedKeys = [''constructor'', ''__proto__'']"

definition normalizeLanguageCode :: "string \<Rightarrow> langcode" where
  "normalizeLanguageCode langCode =
     (if langCode = [] \<or> toLowerCase langCode = ''auto'' then LangString ''auto''
      else (let normalized = toLowerCase langCode
            in case map_of languageMap normalized of
                 Some mapped \<Rightarrow> LangString mapped
               | None \<Rightarrow> if normalized \<in> set inheritedKeys then LangObject
                          else LangString (toUpperCase normalized)))"

record UpstreamPayload =
  jsonrpc :: string
  p_method :: string
  p_id :: int
  texts :: "(string \<times> nat) list"
  p_timestamp :: int
  splitting :: string
  source_lang_user_selected :: langcode
  p_target_lang :: langcode

text \<open>
  The request id of \<open>buildRequestParams\<close>: \<open>now\<close> is \<open>Date.now()\<close>, \<open>rnd\<close> the draw of
  \<open>Math.random()\<close>; \<open>%\<close> is JavaScript's remainder, with the sign of the dividend.
\<close>

definition requestId :: "int \<Rightarrow> rat \<Rightarrow> int" where
  "requestId now rnd =
     (let randomComponent = \<lfloor>rnd * 1000000\<rfloor>
      in (now smod 100000000) + (randomComponent smod 100000000))"

definition buildRequestParams :: "int \<Rightarrow> rat \<Rightarrow> string \<Rightarrow> string \<Rightarrow> UpstreamPayload" where
  "buildRequestParams now rnd sourceLang targetLang =
     \<lparr>jsonrpc = ''2.0'', p_method = ''LMT_handle_texts'', p_id = requestId now rnd,
      texts = [([], 0)], p_timestamp = 0, splitting = ''newlines'',
      source_lang_user_selected = normalizeLanguageCode (if sourceLang = [] then ''auto'' else sourceLang),
      p_target_lang = normalizeLanguageCode (if targetLang = [] then ''en'' else targetLang)\<rparr>"

definition countLetterI :: "string \<Rightarrow> int" where
  "countLetterI translateText = int (length (split_on CHR ''i'' translateText)) - 1"

definition MAX_SAFE_INTEGER :: int where
  "MAX_SAFE_INTEGER = 9007199254740991"

text \<open>\<open>getTimestamp(letterCount)\<close>; \<open>now\<close> is its reading of \<open>Date.now()\<close>.\<close>

definition getTimestamp :: "int \<Rightarrow> int \<Rightarrow> int" where
  "getTimestamp now letterCount =
     (let safeLetterCount = max 0 letterCount
      in if safeLetterCount = 0 then now
         else (let modValue = safeLetterCount + 1
               in if modValue \<le> 0 \<or> modValue > 1000 then now
                  else (let modifiedTimestamp = now - (now smod modValue) + modValue
                        in if modifiedTimestamp > 0 \<and> modifiedTimestamp \<le> MAX_SAFE_INTEGER
                              \<and> modifiedTimestamp \<ge> now - 1000
                           then modifiedTimestamp else now)))"

record RequestBody =
  payload :: UpstreamPayload
  method_spaced :: bool

text \<open>
  \<open>buildRequestBody(data)\<close>. \<open>now\<close> and \<open>rnd\<close> are the clock and the random draw of
  \<open>buildRequestParams\<close>, \<open>now'\<close> the clock of \<open>getTimestamp\<close>, \<open>payloadSize\<close> the number of
  bytes of the serialised request (the serialiser is the platform's). The result records
  the payload and which spelling of the method separator was chosen.
\<close>

definition buildRequestBody :: "int \<Rightarrow> rat \<Rightarrow> int \<Rightarrow> nat \<Rightarrow> RequestParams \<Rightarrow> jserror + RequestBody" where
  "buildRequestBody now rnd now' payloadSize d =
     (if rq_text d = [] then
        Inl (Error ''Invalid request parameters: text is required and must be a string'')
      else if length (rq_text d) > MAX_TEXT_LENGTH then
        Inl (Error ''Text too long'')
      else
        (let sourceLang = (if source_lang d = [] then ''auto'' else source_lang d);
             targetLang = (if target_lang d = [] then ''en'' else target_lang d);
             requestData = (buildRequestParams now rnd sourceLang targetLang)\<lparr>texts := [(rq_text d, 0)]\<rparr>;
             ts = getTimestamp now' (countLetterI (rq_text d))
         in if ts \<le> 0 then Inl (Error ''Invalid timestamp generated'')
            else (let requestData' = requestData\<lparr>p_timestamp := ts\<rparr>;
                      rid = p_id requestData'
                  in if payloadSize > MAX_REQUEST_SIZE then
                       Inl (Error ''Request payload too large'')
                     else
                       Inr \<lparr>payload = requestData',
                            method_spaced = ((rid + 5) smod 29 = 0 \<or> (rid + 3) smod 13 = 0)\<rparr>)))"

text \<open>What the upstream does with one request, as far as \<open>query\<close> looks at it.\<close>

datatype json_outcome =
    JsonParseError string
  | JsonNotObject
  | JsonError jsvalue string
  | JsonNoTexts
  | JsonMalformed
  | JsonResult "string option" "number option" string

record response =
  ok :: bool
  resp_status :: int
  resp_json :: json_outcome

datatype fetch_outcome = FetchThrows jserror | FetchResponse response

text \<open>
  Everything one attempt reads from outside: the random draws, the clocks, the durable
  store of the limiter, the size of the serialised body and what \<open>fetch\<close> does.
\<close>

record attempt_env =
  proxy_random :: rat
  limiter_in :: limiter_env
  clock_id :: int
  random_id :: rat
  clock_ts :: int
  payload_size :: nat
  fetched :: fetch_outcome
  random_resp :: rat

text \<open>
  The process-wide state: the circuit-breaker registry, the limiter's cache, the
  endpoints \<open>fetch\<close> was called with (in order), and the number of attempts started.
\<close>

record world =
  circuitBreakers :: registry
  limiter_state :: limiter
  fetchLog :: "string list"
  attemptNo :: nat

definition timeoutError :: "string \<Rightarrow> jserror" where
  "timeoutError endpoint =
     (Error (''Request timeout after 10 seconds to '' @ endpoint))\<lparr>status := Number (Num 408)\<rparr>"

definition enhancedMessage :: "jsvalue \<Rightarrow> string \<Rightarrow> string" where
  "enhancedMessage errorCode errorMessage =
     (if errorCode = Number (Num 1156049) then ''Invalid request format detected.''
      else if errorCode = Number (Num 1042912) then ''Too many requests. Please try again later.''
      else if errorCode = Number (Num 1042513) then ''Request quota exceeded. Please try again later.''
      else if errorCode = Number (Num 1042003) then
        ''Invalid authentication. Please check your API configuration.''
      else ''DeepL API error: '' @ errorMessage)"

text \<open>The part of an attempt after \<open>makeRequest\<close> has returned a response.\<close>

definition handleResponse :: "RequestParams \<Rightarrow> rat \<Rightarrow> response \<Rightarrow> jserror + ResponseParams" where
  "handleResponse params rnd r =
     (if \<not> ok r then
        Inl ((Error ''Request failed'')\<lparr>status := Number (Num (of_int (resp_status r)))\<rparr>)
      else
        (case resp_json r of
           JsonParseError m \<Rightarrow>
             Inl ((Error (''Failed to parse JSON response: '' @ m))\<lparr>code := Number (Num 500)\<rparr>)
         | JsonNotObject \<Rightarrow> Inl (TypeError ''Cannot use the in operator'')
         | JsonError errorCode m \<Rightarrow>
             Inl ((Error (enhancedMessage errorCode (if m = [] then ''Unknown DeepL API error'' else m)))
                    \<lparr>code := errorCode\<rparr>)
         | JsonNoTexts \<Rightarrow>
             Inl ((Error ''Invalid response structure from DeepL API'')\<lparr>code := Number (Num 500)\<rparr>)
         | JsonMalformed \<Rightarrow> Inl (TypeError ''Cannot read properties of undefined'')
         | JsonResult translatedText i lang \<Rightarrow>
             createStandardResponse rnd (Num 200) translatedText i
               (Some (LangString (toUpperCase lang)))
               (Some (normalizeLanguageCode (target_lang params)))))"

text \<open>
  \<open>makeRequest\<close> and what follows it. The request body is built inside the \<open>try\<close>; the
  transport call \<open>fetch(endpoint, ...)\<close> is made directly and logged.
\<close>

definition transport :: "RequestParams \<Rightarrow> string \<Rightarrow> attempt_env \<Rightarrow> world \<Rightarrow> (jserror + ResponseParams) \<times> world" where
  "transport params endpoint a w =
     (case buildRequestBody (clock_id a) (random_id a) (clock_ts a) (payload_size a) params of
        Inl e \<Rightarrow> (Inl (if name e = ''AbortError'' then timeoutError endpoint else e), w)
      | Inr body \<Rightarrow>
          (let w' = w\<lparr>fetchLog := fetchLog w @ [endpoint]\<rparr>
           in case fetched a of
                FetchThrows e \<Rightarrow>
                  (Inl (if name e = ''AbortError'' then timeoutError endpoint else e), w')
              | FetchResponse r \<Rightarrow> (handleResponse params (random_resp a) r, w')))"

text \<open>The operation \<open>query\<close> hands to \<open>retryWithBackoff\<close>: one attempt.\<close>

definition attempt :: "RequestParams \<Rightarrow> Config \<Rightarrow> (nat \<Rightarrow> attempt_env) \<Rightarrow> world \<Rightarrow> (jserror + ResponseParams) \<times> world" where
  "attempt params config envs w =
     (let a = envs (attemptNo w);
          w0 = w\<lparr>attemptNo := Suc (attemptNo w)\<rparr>;
          proxy = (case env config of Some e \<Rightarrow> selectProxy e (proxy_random a) | None \<Rightarrow> None);
          endpoint = (case proxyEndpoint config of
                        Some p \<Rightarrow> p
                      | None \<Rightarrow> (case proxy of Some p \<Rightarrow> url p | None \<Rightarrow> API_URL))
      in case env config of
           Some e \<Rightarrow>
             (let ip = (case clientIP config of
                          Some c \<Rightarrow> if c = [] then ''unknown'' else c
                        | None \<Rightarrow> ''unknown'');
                  (rateLimitResult, lim) =
                     checkCombinedRateLimit ip endpoint e (limiter_in a) (limiter_state w0);
                  w1 = w0\<lparr>limiter_state := lim\<rparr>
              in if \<not> allowed rateLimitResult then
                   (Inl ((Error (case reason rateLimitResult of
                                   Some m \<Rightarrow> if m = [] then ''Rate limit exceeded'' else m
                                 | None \<Rightarrow> ''Rate limit exceeded''))\<lparr>code := Number (Num 429)\<rparr>), w1)
                 else transport params endpoint a w1)
         | None \<Rightarrow> transport params endpoint a w0)"

text \<open>
  \<open>query(params, config)\<close>. \<open>Inr\<close> is the response the promise resolves to, \<open>Inl\<close> an
  exception that leaves \<open>query\<close>. \<open>parse\<close> is the platform's string-to-number
  conversion, \<open>rnd\<close> the random draw of \<open>query\<close>'s own call of
  \<open>createStandardResponse\<close>. The delays waited between attempts are returned last.
\<close>

definition query ::
  "(string \<Rightarrow> number) \<Rightarrow> rat \<Rightarrow> (nat \<Rightarrow> attempt_env) \<Rightarrow> RequestParams \<Rightarrow> Config \<Rightarrow> world
     \<Rightarrow> (jserror + ResponseParams) \<times> world \<times> rat list" where
  "query parse rnd envs params config w =
     (let src = Some (normalizeLanguageCode (if source_lang params = [] then ''auto'' else source_lang params));
          tgt = Some (normalizeLanguageCode (if target_lang params = [] then ''en'' else target_lang params))
      in if rq_text params = [] then
           (createStandardResponse rnd (Num 400) None None src tgt, w, [])
         else
           (case retryWithBackoff (attempt params config envs) DEFAULT_RETRY_CONFIG w of
              (Inr r, w', ds) \<Rightarrow> (Inr r, w', ds)
            | (Inl thrown, w', ds) \<Rightarrow>
                (createStandardResponse rnd (createErrorResponse_httpStatus parse thrown)
                   None None src tgt, w', ds)))"

section \<open>Reference points for the properties\<close>


text \<open>The timestamp of a built request, if one was built.\<close>

definition builtTimestamp :: "jserror + RequestBody \<Rightarrow> int option" where
  "builtTimestamp b = (case b of Inl e \<Rightarrow> None | Inr body \<Rightarrow> Some (p_timestamp (payload body)))"

text \<open>\<open>n\<close> consecutive proxy admission checks at one clock reading, oldest first.\<close>

fun proxyChecks :: "nat \<Rightarrow> string \<Rightarrow> int \<Rightarrow> kv_env \<Rightarrow> limiter \<Rightarrow> bool list \<times> limiter" where
  "proxyChecks 0 proxyUrl now kv st = ([], st)"
| "proxyChecks (Suc n) proxyUrl now kv st =
     (case checkProxyRateLimit proxyUrl now kv st of
        (a, st') \<Rightarrow> (case proxyChecks n proxyUrl now kv st' of (as, st'') \<Rightarrow> (a # as, st'')))"

text \<open>
  Sample surroundings of one attempt: the upstream answers with a translation, or with
  an error object whose code is 200; and a process state whose registry holds an OPEN
  breaker for the direct endpoint.
\<close>

definition upstream_ok :: attempt_env where
  "upstream_ok =
     \<lparr>proxy_random = 0,
      limiter_in = \<lparr>now_cleanup = 1700000005000, now_client = 1700000005000,
                    kv_client = \<lparr>kv_get = KvValue None, kv_put_throws = False\<rparr>,
                    now_proxy = 1700000005000,
                    kv_proxy = \<lparr>kv_get = KvValue None, kv_put_throws = False\<rparr>\<rparr>,
      clock_id = 1700000005123, random_id = 456 / 1000000, clock_ts = 1700000005124,
      payload_size = 300,
      fetched = FetchResponse \<lparr>ok = True, resp_status = 200,
                                resp_json = JsonResult (Some ''hallo'') (Some (Num 12345)) ''EN''\<rparr>,
      random_resp = 1 / 2\<rparr>"




definition fresh_world :: world where
  "fresh_world =
     \<lparr>circuitBreakers = [],
      limiter_state = \<lparr>rateLimitCache = [], kvPuts = []\<rparr>, fetchLog = [], attemptNo = 0\<rparr>"

definition sample_entry :: CacheEntry where
  "sample_entry = \<lparr>data = ''hallo'', timestamp = Num 1700000000000, ce_source_lang = ''EN'',
                    ce_target_lang = ''DE'', ce_id = Num 12345\<rparr>"


section \<open>Properties\<close>

lemma sanitizeStatusCode_range:
  "\<exists>n::int. sanitizeStatusCode parse v = Num (of_int n) \<and> 200 \<le> n \<and> n \<le> 599"
proof (cases "isValidHttpStatusCode parse (Number (toNumber parse v))")
  case True
  then obtain x where x: "toNumber parse v = Num x" "200 \<le> x" "x \<le> 599" "of_int \<lfloor>x\<rfloor> = x"
    by (auto simp: isValidHttpStatusCode_def toNumber_def num_le_def isInteger_def Let_def
             split: number.splits)
  have "200 \<le> \<lfloor>x\<rfloor> \<and> \<lfloor>x\<rfloor> \<le> 599"
    using x(2,3) by (simp add: le_floor_iff floor_le_iff)
  moreover have "sanitizeStatusCode parse v = Num (of_int \<lfloor>x\<rfloor>)"
    using True x(1) by (simp add: sanitizeStatusCode_def Let_def x(4))
  ultimately show ?thesis
    by blast
next
  case False
  then show ?thesis
    by (intro exI[of _ 500]) (simp add: sanitizeStatusCode_def Let_def)
qed

subsection \<open>Circuit breaker\<close>

lemma reachable_failureCount:
  "reachable b \<Longrightarrow> state b \<noteq> CLOSED \<Longrightarrow> FAILURE_THRESHOLD \<le> failureCount b"
proof (induction rule: reachable.induct)
  case init
  then show ?case by (simp add: initial_breaker_def)
next
  case (guard b now b')
  then show ?case by (auto simp: admit_def split: if_splits)
next
  case (success b)
  then show ?case by (auto simp: onSuccess_def Let_def split: if_splits)
next
  case (failure b now)
  then show ?case by (auto simp: onFailure_def Let_def split: if_splits)
qed

lemma reachable_tripped:
  "reachable \<lparr>state = OPEN, failureCount = 5, lastFailureTime = 1000, successCount = 0\<rparr>"
proof -
  have f: "reachable ((onFailure 1000 ^^ n) initial_breaker)" for n
    by (induction n) (auto intro: reachable.intros)
  have "(onFailure 1000 ^^ 5) initial_breaker
          = \<lparr>state = OPEN, failureCount = 5, lastFailureTime = 1000, successCount = 0\<rparr>"
    by (simp add: numeral_nat onFailure_def initial_breaker_def FAILURE_THRESHOLD_def Let_def)
  with f[of 5] show ?thesis by simp
qed

lemma reachable_probing:
  "reachable \<lparr>state = HALF_OPEN, failureCount = 5, lastFailureTime = 1000, successCount = 0\<rparr>"
  by (rule reachable.guard[OF reachable_tripped, of 40000])
     (simp add: admit_def RECOVERY_TIMEOUT_def)

text \<open>
  C6. In every reachable state of a circuit breaker that is HALF_OPEN, one failed
  operation run through \<open>execute\<close> is invoked, its error is rethrown, and the breaker
  ends OPEN: the failure count of a reachable HALF_OPEN breaker is already at the
  threshold.
\<close>

theorem halfopen_failure_opens:
  assumes "reachable b" and "state b = HALF_OPEN" and "operation w = (Inl e, w')"
  shows "execute operation now now' b w = (Inl (OperationError e), onFailure now' b, w')
         \<and> state (onFailure now' b) = OPEN"
proof -
  have adm: "admit now b = Some b"
    using assms(2) by (simp add: admit_def)
  have "FAILURE_THRESHOLD \<le> failureCount b"
    using reachable_failureCount[OF assms(1)] assms(2) by simp
  then have "state (onFailure now' b) = OPEN"
    by (simp add: onFailure_def Let_def)
  then show ?thesis
    using adm assms(3) by (simp add: execute_def)
qed

theorem halfopen_failure_opens_witness:
  "reachable \<lparr>state = HALF_OPEN, failureCount = 5, lastFailureTime = 1000, successCount = 0\<rparr>
   \<and> execute (counted (\<lambda>n. Inl ''upstream down'' :: string + unit)) 40000 40007
        \<lparr>state = HALF_OPEN, failureCount = 5, lastFailureTime = 1000, successCount = 0\<rparr> 0
      = (Inl (OperationError ''upstream down''),
         \<lparr>state = OPEN, failureCount = 6, lastFailureTime = 40007, successCount = 0\<rparr>, 1)"
  using halfopen_failure_opens[OF reachable_probing,
          of "counted (\<lambda>n. Inl ''upstream down'' :: string + unit)" 0 "''upstream down''" 1
             40000 40007]
        reachable_probing
  by (simp add: counted_def onFailure_def FAILURE_THRESHOLD_def Let_def)

subsection \<open>Retry loop\<close>



lemma retry_loop_Inr:
  "retry_loop operation options a le s ds = (Inr v, s', ds')
     \<Longrightarrow> \<exists>s0. operation s0 = (Inr v, s')"
proof (induction operation options a le s ds rule: retry_loop.induct)
  case (1 operation options k lastError s ds)
  show ?case
  proof (cases "int k < maxRetries options")
    case False
    with "1.prems" show ?thesis by simp
  next
    case True
    obtain x s1 where op: "operation s = (x, s1)" by (cases "operation s")
    show ?thesis
    proof (cases x)
      case (Inr u)
      with True op "1.prems" show ?thesis by auto
    next
      case (Inl e)
      show ?thesis
      proof (cases "isRetryable options e")
        case False
        with True op Inl "1.prems" show ?thesis by simp
      next
        case rt: True
        from True op Inl rt "1.prems"
        have "retry_loop operation options (Suc k) (Some e) s1
                (ds @ [backoffDelay options k]) = (Inr v, s', ds')"
          by simp
        from "1.IH"[OF True op[symmetric] Inl rt this] show ?thesis .
      qed
    qed
  qed
qed

text \<open>
  C1. The claim: the loop makes \<open>maxRetries + 1\<close> attempts, \<open>k \<le> maxRetries\<close> retryable
  failures followed by a success give \<open>k + 1\<close> invocations, and \<open>maxRetries \<le> 0\<close> gives
  one invocation. The loop runs while \<open>attempt < maxRetries\<close>: with \<open>maxRetries = 3\<close> an
  operation that fails three times and would succeed on its fourth call is invoked three
  times and its last error is thrown; with \<open>maxRetries = 0\<close> the operation is never
  invoked and \<open>undefined\<close> is thrown.
\<close>

theorem retry_attempts_off_by_one:
  "retryWithBackoff (counted (\<lambda>n. if n < 3 then Inl ''transient'' else Inr ''ok''))
      \<lparr>maxRetries = 3, initialDelay = 1000, backoffFactor = 2, isRetryable = (\<lambda>e. True)\<rparr> 0
    = (Inl (Some ''transient''), 3, [1000, 2000, 4000])
   \<and> retryWithBackoff (counted (\<lambda>n. Inl ''transient'' :: string + string))
      \<lparr>maxRetries = 0, initialDelay = 1000, backoffFactor = 2, isRetryable = (\<lambda>e. True)\<rparr> 0
    = (Inl None, 0, [])"
  by (simp add: retryWithBackoff_def counted_def backoffDelay_def)




subsection \<open>Request builder\<close>

lemma split_on_length: "length (split_on sep s) = Suc (count_list s sep)"
  by (induction s) (auto split: list.splits)

lemma countLetterI_count: "countLetterI s = int (count_list s CHR ''i'')"
  by (simp add: countLetterI_def split_on_length)

lemma count_list_replicate: "count_list (replicate n x) x = n"
  by (induction n) simp_all

lemma smod_nonneg: "0 \<le> a \<Longrightarrow> 0 < b \<Longrightarrow> (a::int) smod b = a mod b"
  by (simp add: signed_modulo_int_def sgn_if)

lemma getTimestamp_cases:
  assumes "0 \<le> now" "now \<le> 8640000000000000"
  shows "getTimestamp now k =
          (if k \<le> 0 \<or> k \<ge> 1000 then now else now - now mod (k + 1) + (k + 1))"
proof (cases "k \<le> 0 \<or> k \<ge> 1000")
  case True
  then show ?thesis by (auto simp: getTimestamp_def Let_def max_def)
next
  case False
  then have k: "0 < k" "k < 1000" by auto
  have m: "now smod (k + 1) = now mod (k + 1)"
    using assms k by (simp add: smod_nonneg)
  have b1: "0 \<le> now mod (k + 1)" using k by simp
  have b2: "now mod (k + 1) \<le> k"
    using pos_mod_bound[of "k + 1" now] k by linarith
  define t where "t = now - now mod (k + 1) + (k + 1)"
  have g: "t > 0" "t \<le> MAX_SAFE_INTEGER" "t \<ge> now - 1000"
    unfolding t_def MAX_SAFE_INTEGER_def using assms k b1 b2 by linarith+
  have "getTimestamp now k = t"
    using k g by (simp add: getTimestamp_def Let_def max_def m t_def[symmetric])
  then show ?thesis
    using False by (simp add: t_def)
qed

lemma requestId_bounds:
  assumes "0 \<le> now" "0 \<le> rnd" "rnd < 1"
  shows "0 \<le> requestId now rnd \<and> requestId now rnd \<le> 100999998"
proof -
  have r0: "0 \<le> \<lfloor>rnd * 1000000\<rfloor>" using assms(2) by simp
  have "rnd * 1000000 < 1000000" using assms(3) by simp
  then have r1: "\<lfloor>rnd * 1000000\<rfloor> < 1000000" by (simp add: floor_less_iff)
  have a: "now smod 100000000 = now mod 100000000"
    using assms(1) by (simp add: smod_nonneg)
  have b: "\<lfloor>rnd * 1000000\<rfloor> smod 100000000 = \<lfloor>rnd * 1000000\<rfloor>"
    using r0 r1 by (simp add: smod_nonneg)
  have c: "0 \<le> now mod 100000000" "now mod 100000000 < 100000000" by simp_all
  show ?thesis
    unfolding requestId_def Let_def a b using r0 r1 c by linarith
qed

text \<open>
  C4. The claim: the request id of the outbound payload always has 8 or 9 digits. The
  id is \<open>(now % 10^8) + (randomComponent % 10^8)\<close> with nothing added or folded: at
  the clock reading 1700000000123 and the random draw 0.000456 it is 579.
\<close>

theorem requestId_three_digits:
  "p_id (buildRequestParams 1700000000123 (456 / 1000000) ''en'' ''de'') = 579"
  by (simp add: buildRequestParams_def requestId_def signed_modulo_int_def)

text \<open>
  C5, as the code has it. For a request that is built at a clock reading \<open>now'\<close> in the
  range of \<open>Date.now()\<close>, with \<open>k\<close> the number of occurrences of the letter i in the text:
  the timestamp is \<open>now'\<close> when \<open>k = 0\<close> or when \<open>k \<ge> 1000\<close> (the guard
  \<open>modValue > 1000\<close>), and \<open>now' - now' mod (k + 1) + (k + 1)\<close> when \<open>1 \<le> k \<le> 999\<close>.
\<close>

theorem payload_timestamp:
  assumes "buildRequestBody now rnd now' sz d = Inr body"
    and "0 \<le> now'" and "now' \<le> 8640000000000000"
  shows "p_timestamp (payload body) =
           (let k = int (count_list (rq_text d) CHR ''i'')
            in if k = 0 \<or> 1000 \<le> k then now' else now' - now' mod (k + 1) + (k + 1))"
proof -
  have "p_timestamp (payload body) = getTimestamp now' (countLetterI (rq_text d))"
    using assms(1) by (auto simp: buildRequestBody_def Let_def split: if_splits)
  then show ?thesis
    using getTimestamp_cases[OF assms(2,3), of "countLetterI (rq_text d)"]
    by (simp add: countLetterI_count Let_def)
qed

theorem payload_timestamp_witness:
  "builtTimestamp (buildRequestBody 1700000000123 (456 / 1000000) 1700000000001 300
            \<lparr>rq_text = ''this is it'', source_lang = ''en'', target_lang = ''de''\<rparr>)
     = Some 1700000000004
   \<and> count_list ''this is it'' CHR ''i'' = 3"
proof -
  obtain body where b: "buildRequestBody 1700000000123 (456 / 1000000) 1700000000001 300
            \<lparr>rq_text = ''this is it'', source_lang = ''en'', target_lang = ''de''\<rparr> = Inr body"
    by (simp add: buildRequestBody_def Let_def MAX_TEXT_LENGTH_def MAX_REQUEST_SIZE_def
          countLetterI_count getTimestamp_def signed_modulo_int_def MAX_SAFE_INTEGER_def)
  from payload_timestamp[OF b] have "p_timestamp (payload body) = 1700000000004"
    by simp
  with b show ?thesis by (simp add: builtTimestamp_def)
qed

theorem payload_timestamp_counterexample:
  "builtTimestamp (buildRequestBody 1700000000123 (456 / 1000000) 1700000000000 1300
            \<lparr>rq_text = replicate 1000 CHR ''i'', source_lang = ''en'', target_lang = ''de''\<rparr>)
     = Some 1700000000000
   \<and> count_list (replicate 1000 CHR ''i'') CHR ''i'' = 1000
   \<and> (1700000000000 :: int) \<noteq> 1700000000000 - 1700000000000 mod (1000 + 1) + (1000 + 1)"
  by (simp add: builtTimestamp_def buildRequestBody_def Let_def MAX_TEXT_LENGTH_def
        MAX_REQUEST_SIZE_def countLetterI_count count_list_replicate getTimestamp_def)

subsection \<open>Cache\<close>

text \<open>
  C9. \<open>getCachedTranslation\<close> returns an entry only if it is the stored entry of one of
  the two tiers and was younger than 3600 s at the clock reading of its check; when every
  stored entry is at least 3600 s old the read returns absent and leaves the local tier
  as it was, as with no entry at all.
\<close>

theorem cache_read_fresh_only:
  "(fst (getCachedTranslation key now now' kv mem) = Some e \<longrightarrow>
      (map_of mem key = Some e \<and> (\<exists>t. timestamp e = Num t \<and> of_int now - t < 3600 * 1000))
      \<or> (kv = CacheKvValue (Some e) \<and> (\<exists>t. timestamp e = Num t \<and> of_int now' - t < 3600 * 1000)))
   \<and> ((\<forall>m t. map_of mem key = Some m \<and> timestamp m = Num t \<longrightarrow> 3600 * 1000 \<le> of_int now - t)
        \<and> (\<forall>k t. kv = CacheKvValue (Some k) \<and> timestamp k = Num t \<longrightarrow> 3600 * 1000 \<le> of_int now' - t)
      \<longrightarrow> getCachedTranslation key now now' kv mem = (None, mem)
          \<and> getCachedTranslation key now now' (CacheKvValue None) [] = (None, []))"
proof -
  have fr: "fresh n x \<longleftrightarrow> (\<exists>t. timestamp x = Num t \<and> of_int n - t < 3600 * 1000)" for n x
    by (auto simp: fresh_def num_lt_def num_sub_def CACHE_TTL_def split: number.splits)
  show ?thesis
    by (auto simp: getCachedTranslation_def Let_def fr
             split: option.splits cache_read.splits if_splits)
qed

theorem cache_read_fresh_only_witness:
  "fst (getCachedTranslation ''k'' 1700003599999 1700003599999 (CacheKvValue None)
          [(''k'', sample_entry)]) = Some sample_entry
   \<and> getCachedTranslation ''k'' 1700003600000 1700003600001 (CacheKvValue (Some sample_entry))
          [(''k'', sample_entry)] = (None, [(''k'', sample_entry)])"
proof -
  have a: "fst (getCachedTranslation ''k'' 1700003599999 1700003599999 (CacheKvValue None)
          [(''k'', sample_entry)]) = Some sample_entry"
    by (simp add: getCachedTranslation_def fresh_def num_lt_def num_sub_def CACHE_TTL_def
          sample_entry_def)
  have b: "(\<forall>m t. map_of [(''k'', sample_entry)] ''k'' = Some m \<and> timestamp m = Num t
                 \<longrightarrow> 3600 * 1000 \<le> of_int 1700003600000 - t)
        \<and> (\<forall>k t. CacheKvValue (Some sample_entry) = CacheKvValue (Some k) \<and> timestamp k = Num t
                 \<longrightarrow> 3600 * 1000 \<le> of_int 1700003600001 - t)"
    by (simp add: sample_entry_def)
  from cache_read_fresh_only[of "''k''" 1700003600000 1700003600001
          "CacheKvValue (Some sample_entry)" "[(''k'', sample_entry)]" sample_entry] b a
  show ?thesis by blast
qed

subsection \<open>Standard response and error mapping\<close>

lemma createStandardResponse_Inr:
  assumes "createStandardResponse rnd c d i src tgt = Inr r"
  shows "r_code r = c \<and> (\<exists>q. r_id r = Num q)
         \<and> (c \<noteq> Num 200 \<longrightarrow> r_data r = None \<and> r_source_lang r = None \<and> r_target_lang r = None)"
  using assms
  by (auto simp: createStandardResponse_def Let_def
           split: if_splits sum.splits option.splits number.splits)

lemma createStandardResponse_non200:
  "c \<noteq> Num 200 \<Longrightarrow>
     \<exists>q. createStandardResponse rnd c d i src tgt =
           Inr \<lparr>r_code = c, r_data = None, r_id = Num q, r_source_lang = None, r_target_lang = None\<rparr>"
  by (auto simp: createStandardResponse_def Let_def split: option.splits number.splits)

lemma createStandardResponse_strings:
  "src \<noteq> Some LangObject \<Longrightarrow> tgt \<noteq> Some LangObject \<Longrightarrow>
     \<exists>r. createStandardResponse rnd c d i src tgt = Inr r"
  by (auto simp: createStandardResponse_def upper_or_default_def Let_def
           split: option.splits number.splits langcode.splits)

lemma handleResponse_Inr: "handleResponse params rnd resp = Inr r \<Longrightarrow> r_code r = Num 200"
  by (auto simp: handleResponse_def split: if_splits json_outcome.splits
           dest: createStandardResponse_Inr)

lemma transport_Inr: "transport params endpoint a w = (Inr r, w') \<Longrightarrow> r_code r = Num 200"
  by (auto simp: transport_def Let_def split: sum.splits fetch_outcome.splits
           dest: handleResponse_Inr)

lemma httpStatus_range:
  "\<exists>n::int. createErrorResponse_httpStatus parse thrown = Num (of_int n) \<and> 200 \<le> n \<and> n \<le> 599"
proof -
  have "\<exists>n::int. (Num 500 :: number) = Num (of_int n) \<and> 200 \<le> n \<and> n \<le> 599"
    by (intro exI[of _ 500]) simp
  then show ?thesis
    using sanitizeStatusCode_range
    by (simp add: createErrorResponse_httpStatus_def Let_def)
qed

subsection \<open>The query\<close>





lemma attempt_Inr:
  assumes "attempt params config envs w = (Inr r, w')"
  shows "r_code r = Num 200"
proof (cases "env config")
  case None
  with assms show ?thesis
    by (auto simp: attempt_def Let_def dest: transport_Inr)
next
  case (Some e)
  with assms show ?thesis
    by (auto simp: attempt_def Let_def split: prod.splits if_splits dest: transport_Inr)
qed


lemma query_Inr_cases:
  assumes "fst (query parse rnd envs params config w) = Inr r"
  shows "r_code r = Num 200
         \<or> (\<exists>c src tgt. createStandardResponse rnd c None None src tgt = Inr r
               \<and> (c = Num 400 \<or> (\<exists>t. c = createErrorResponse_httpStatus parse t)))"
proof (cases "rq_text params = []")
  case True
  define src where "src = Some (normalizeLanguageCode
                (if source_lang params = [] then ''auto'' else source_lang params))"
  define tgt where "tgt = Some (normalizeLanguageCode
                (if target_lang params = [] then ''en'' else target_lang params))"
  from True assms have "createStandardResponse rnd (Num 400) None None src tgt = Inr r"
    by (simp add: query_def Let_def src_def tgt_def)
  then show ?thesis by blast
next
  case False
  define src where "src = Some (normalizeLanguageCode
                (if source_lang params = [] then ''auto'' else source_lang params))"
  define tgt where "tgt = Some (normalizeLanguageCode
                (if target_lang params = [] then ''en'' else target_lang params))"
  obtain x w' ds where rw: "retryWithBackoff (attempt params config envs) DEFAULT_RETRY_CONFIG w
                              = (x, w', ds)"
    by (cases "retryWithBackoff (attempt params config envs) DEFAULT_RETRY_CONFIG w")
  show ?thesis
  proof (cases x)
    case (Inr v)
    with rw False assms have vr: "v = r" by (simp add: query_def Let_def)
    from rw Inr have "retry_loop (attempt params config envs) DEFAULT_RETRY_CONFIG 0 None w []
                                 = (Inr v, w', ds)"
      by (simp add: retryWithBackoff_def)
    from retry_loop_Inr[OF this]
    obtain s0 where "attempt params config envs s0 = (Inr v, w')" ..
    from attempt_Inr[OF this] vr have "r_code r = Num 200" by simp
    then show ?thesis ..
  next
    case (Inl t)
    with rw False assms
    have "createStandardResponse rnd (createErrorResponse_httpStatus parse t)
                       None None src tgt = Inr r"
      by (simp add: query_def Let_def src_def tgt_def)
    then show ?thesis by blast
  qed
qed

lemmas query_eval = query_def retryWithBackoff_def attempt_def transport_def handleResponse_def
  buildRequestBody_def buildRequestParams_def requestId_def getTimestamp_def countLetterI_count
  createStandardResponse_def upper_or_default_def normalizeLanguageCode_def toLowerCase_def
  toUpperCase_def lower_char_def upper_char_def languageMap_def inheritedKeys_def
  DEFAULT_RETRY_CONFIG_def isRetryableError_def createErrorResponse_httpStatus_def
  sanitizeStatusCode_def isValidHttpStatusCode_def toNumber_def truthy_def includes_number_def
  num_le_def isInteger_def Error_def TypeError_def enhancedMessage_def
  MAX_TEXT_LENGTH_def MAX_REQUEST_SIZE_def MAX_SAFE_INTEGER_def API_URL_def
  signed_modulo_int_def Let_def




text \<open>
  C7. \<open>createStandardResponse\<close> with a code other than 200 returns that code, a numeric
  id, and \<open>null\<close> for data, source_lang and target_lang; and every response that
  \<open>query\<close> returns with a code other than 200 has these three fields \<open>null\<close> and a
  numeric id.
\<close>

theorem non200_fields_null:
  "(c \<noteq> Num 200 \<longrightarrow>
      (\<exists>q. createStandardResponse rnd c d i src tgt =
             Inr \<lparr>r_code = c, r_data = None, r_id = Num q,
                  r_source_lang = None, r_target_lang = None\<rparr>))
   \<and> (fst (query parse rnd' envs params config w) = Inr r \<and> r_code r \<noteq> Num 200 \<longrightarrow>
        r_data r = None \<and> r_source_lang r = None \<and> r_target_lang r = None
        \<and> (\<exists>q. r_id r = Num q))"
proof -
  have "r_data r = None \<and> r_source_lang r = None \<and> r_target_lang r = None \<and> (\<exists>q. r_id r = Num q)"
    if h: "fst (query parse rnd' envs params config w) = Inr r" "r_code r \<noteq> Num 200"
  proof -
    from query_Inr_cases[OF h(1)] h(2)
    obtain c' src' tgt' where "createStandardResponse rnd' c' None None src' tgt' = Inr r"
      by blast
    from createStandardResponse_Inr[OF this] h(2) show ?thesis by auto
  qed
  then show ?thesis
    using createStandardResponse_non200[of c rnd d i src tgt] by blast
qed

lemma query_code_range:
  assumes "fst (query parse rnd envs params config w) = Inr r"
  shows "\<exists>n::int. r_code r = Num (of_int n) \<and> 200 \<le> n \<and> n \<le> 599"
proof -
  from query_Inr_cases[OF assms]
  consider "r_code r = Num 200"
    | c src tgt where "createStandardResponse rnd c None None src tgt = Inr r" "c = Num 400"
    | c src tgt t where "createStandardResponse rnd c None None src tgt = Inr r"
        "c = createErrorResponse_httpStatus parse t"
    by blast
  then show ?thesis
  proof cases
    case 1
    then show ?thesis by (intro exI[of _ 200]) simp
  next
    case 2
    from createStandardResponse_Inr[OF 2(1)] 2(2) show ?thesis
      by (intro exI[of _ 400]) simp
  next
    case 3
    from createStandardResponse_Inr[OF 3(1)] 3(2) httpStatus_range[of parse t]
    show ?thesis by auto
  qed
qed

lemma normalizeLanguageCode_object:
  "normalizeLanguageCode s = LangObject \<Longrightarrow> toLowerCase s \<in> set inheritedKeys"
  by (simp add: normalizeLanguageCode_def Let_def split: if_splits option.splits)

theorem non200_fields_null_witness:
  "Num 404 \<noteq> Num 200
   \<and> createStandardResponse (1 / 4) (Num 404) (Some ''text'') (Some (Num 7)) None None
       = Inr \<lparr>r_code = Num 404, r_data = None, r_id = Num 7,
              r_source_lang = None, r_target_lang = None\<rparr>
   \<and> fst (query (\<lambda>s. NaN) (1 / 4) (\<lambda>n. upstream_ok)
        \<lparr>rq_text = [], source_lang = ''en'', target_lang = ''de''\<rparr>
        \<lparr>proxyEndpoint = None, clientIP = None, env = None\<rparr> fresh_world)
       = Inr \<lparr>r_code = Num 400, r_data = None, r_id = Num 2500000000,
              r_source_lang = None, r_target_lang = None\<rparr>"
proof -
  have a: "createStandardResponse (1 / 4) (Num 404) (Some ''text'') (Some (Num 7)) None None
       = Inr \<lparr>r_code = Num 404, r_data = None, r_id = Num 7,
              r_source_lang = None, r_target_lang = None\<rparr>"
    by (simp add: createStandardResponse_def)
  have b: "fst (query (\<lambda>s. NaN) (1 / 4) (\<lambda>n. upstream_ok)
        \<lparr>rq_text = [], source_lang = ''en'', target_lang = ''de''\<rparr>
        \<lparr>proxyEndpoint = None, clientIP = None, env = None\<rparr> fresh_world)
       = Inr \<lparr>r_code = Num 400, r_data = None, r_id = Num 2500000000,
              r_source_lang = None, r_target_lang = None\<rparr>"
    by (simp add: query_def createStandardResponse_def Let_def)
  from non200_fields_null[of "Num 404" "1 / 4" "Some ''text''" "Some (Num 7)" None None
         "\<lambda>s. NaN" "1 / 4" "\<lambda>n. upstream_ok"
         "\<lparr>rq_text = [], source_lang = ''en'', target_lang = ''de''\<rparr>"
         "\<lparr>proxyEndpoint = None, clientIP = None, env = None\<rparr>" fresh_world
         "\<lparr>r_code = Num 400, r_data = None, r_id = Num 2500000000,
              r_source_lang = None, r_target_lang = None\<rparr>"] a b
  show ?thesis by simp
qed


lemma query_total:
  assumes "toLowerCase (source_lang params) \<notin> set inheritedKeys"
    and "toLowerCase (target_lang params) \<notin> set inheritedKeys"
  shows "\<exists>r. fst (query parse rnd envs params config w) = Inr r"
proof -
  have a: "toLowerCase ''auto'' \<notin> set inheritedKeys" "toLowerCase ''en'' \<notin> set inheritedKeys"
    by (simp_all add: toLowerCase_def lower_char_def inheritedKeys_def)
  define src where "src = Some (normalizeLanguageCode
                (if source_lang params = [] then ''auto'' else source_lang params))"
  define tgt where "tgt = Some (normalizeLanguageCode
                (if target_lang params = [] then ''en'' else target_lang params))"
  have s: "src \<noteq> Some LangObject" "tgt \<noteq> Some LangObject"
    using assms a normalizeLanguageCode_object by (auto simp: src_def tgt_def)
  have c: "\<exists>r. createStandardResponse rnd c None None src tgt = Inr r" for c
    using createStandardResponse_strings[OF s] by blast
  obtain x w' ds where rw: "retryWithBackoff (attempt params config envs) DEFAULT_RETRY_CONFIG w
                              = (x, w', ds)"
    by (cases "retryWithBackoff (attempt params config envs) DEFAULT_RETRY_CONFIG w")
  show ?thesis
  proof (cases "rq_text params = []")
    case True
    with c[of "Num 400"] show ?thesis
      by (simp add: query_def Let_def src_def tgt_def)
  next
    case False
    show ?thesis
    proof (cases x)
      case (Inr v)
      with rw False show ?thesis by (simp add: query_def Let_def)
    next
      case (Inl t)
      with rw False c[of "createErrorResponse_httpStatus parse t"] show ?thesis
        by (simp add: query_def Let_def src_def tgt_def)
    qed
  qed
qed

text \<open>
  For language codes other than the two inherited keys, \<open>query\<close> returns a response
  for every input and every behaviour of its surroundings, and the code of the response
  is an integer between 200 and 599.
\<close>

theorem query_total_in_range:
  assumes "toLowerCase (source_lang params) \<notin> set inheritedKeys"
    and "toLowerCase (target_lang params) \<notin> set inheritedKeys"
  shows "\<exists>r n. fst (query parse rnd envs params config w) = Inr r
               \<and> r_code r = Num (of_int n) \<and> 200 \<le> n \<and> n \<le> (599::int)"
proof -
  from query_total[OF assms] obtain r where r: "fst (query parse rnd envs params config w) = Inr r"
    by blast
  from query_code_range[OF r] r show ?thesis by blast
qed

theorem query_total_in_range_witness:
  "toLowerCase ''en'' \<notin> set inheritedKeys \<and> toLowerCase ''de'' \<notin> set inheritedKeys
   \<and> (\<exists>r n. fst (query (\<lambda>s. NaN) (1 / 4)
                 (\<lambda>n. upstream_ok\<lparr>fetched := FetchResponse \<lparr>ok = True, resp_status = 200,
                          resp_json = JsonError (Number (Num 1156049)) ''rejected''\<rparr>\<rparr>)
                 \<lparr>rq_text = ''hello'', source_lang = ''en'', target_lang = ''de''\<rparr>
                 \<lparr>proxyEndpoint = None, clientIP = None, env = None\<rparr> fresh_world) = Inr r
               \<and> r_code r = Num (of_int n) \<and> 200 \<le> n \<and> n \<le> (599::int))"
proof -
  have h: "toLowerCase ''en'' \<notin> set inheritedKeys" "toLowerCase ''de'' \<notin> set inheritedKeys"
    by (simp_all add: toLowerCase_def lower_char_def inheritedKeys_def)
  from query_total_in_range[of "\<lparr>rq_text = ''hello'', source_lang = ''en'', target_lang = ''de''\<rparr>"]
       h
  show ?thesis by simp
qed

lemma query_upstream_code_500:
  "fst (query (\<lambda>s. NaN) (1 / 4)
                 (\<lambda>n. upstream_ok\<lparr>fetched := FetchResponse \<lparr>ok = True, resp_status = 200,
                          resp_json = JsonError (Number (Num 1156049)) ''rejected''\<rparr>\<rparr>)
                 \<lparr>rq_text = ''hello'', source_lang = ''en'', target_lang = ''de''\<rparr>
                 \<lparr>proxyEndpoint = None, clientIP = None, env = None\<rparr> fresh_world)
   = Inr \<lparr>r_code = Num 500, r_data = None, r_id = Num 2500000000,
              r_source_lang = None, r_target_lang = None\<rparr>"
  by (simp add: query_eval upstream_ok_def fresh_world_def)

subsection \<open>Admission control\<close>

lemma getDynamicRateLimits_NaN:
  "getDynamicRateLimits e = \<lparr>TOKENS_PER_MINUTE = NaN, REFILL_RATE = NaN\<rparr>"
  by (simp add: getDynamicRateLimits_def calculateDynamicRateLimits_def promise_length_def
        num_mul_def num_div_def)

lemma bucketCheck_NaN: "fst (bucketCheck key NaN rate now kv st) = True"
  by (simp add: bucketCheck_def refill_def Math_min_def num_lt_def Let_def
           split: option.splits kv_read.splits)

text \<open>
  C8. The claim: from a full bucket of capacity \<open>N\<close> the \<open>(N+1)\<close>-th check is denied.
  For a client, \<open>maxTokens\<close> comes from \<open>getDynamicRateLimits\<close>, which reads
  \<open>.length\<close> of the promise that the \<open>async\<close> \<open>getProxyEndpoints\<close> returns: the
  capacity and the refill rate are \<open>NaN\<close>, \<open>tokens < 1\<close> is never true, and no client
  check is ever denied.
\<close>

theorem checkRateLimit_never_denies:
  "fst (checkRateLimit ip e now kv st) = True"
  by (simp add: checkRateLimit_def getDynamicRateLimits_NaN bucketCheck_NaN)

lemma proxy_check_cached:
  assumes c: "map_of (rateLimitCache st) (''proxy_rate_limit:'' @ u)
                = Some \<lparr>tokens = Num t, lastRefill = now, lastUpdate = now\<rparr>"
    and t: "t \<le> 16" and p: "\<not> kv_put_throws kv"
  shows "fst (checkProxyRateLimit u now kv st) = (1 \<le> t)
         \<and> map_of (rateLimitCache (snd (checkProxyRateLimit u now kv st))) (''proxy_rate_limit:'' @ u)
             = Some \<lparr>tokens = Num (if 1 \<le> t then t - 1 else t), lastRefill = now, lastUpdate = now\<rparr>"
proof -
  have r: "refill (Num PROXY_MAX_TOKENS) (Num PROXY_TOKENS_PER_SECOND) now (Num t) now = Num t"
    using t by (simp add: refill_def Math_min_def num_add_def num_mul_def PROXY_MAX_TOKENS_def)
  show ?thesis
    using c p
    by (simp add: checkProxyRateLimit_def bucketCheck_def cacheSet_def kvPut_def Let_def r
          RATE_CACHE_TTL_def num_lt_def num_sub_def update_conv' not_less)
qed

lemma proxyChecks_cached:
  assumes "map_of (rateLimitCache st) (''proxy_rate_limit:'' @ u)
             = Some \<lparr>tokens = Num (of_nat m), lastRefill = now, lastUpdate = now\<rparr>"
    and "m \<le> 16" and "\<not> kv_put_throws kv"
  shows "fst (proxyChecks n u now kv st) = replicate (min n m) True @ replicate (n - m) False
         \<and> map_of (rateLimitCache (snd (proxyChecks n u now kv st))) (''proxy_rate_limit:'' @ u)
             = Some \<lparr>tokens = Num (of_nat (m - n)), lastRefill = now, lastUpdate = now\<rparr>"
  using assms
proof (induction n arbitrary: st m)
  case 0
  then show ?case by simp
next
  case (Suc n)
  obtain a st1 where ch: "checkProxyRateLimit u now kv st = (a, st1)"
    by (cases "checkProxyRateLimit u now kv st")
  have t16: "(of_nat m :: rat) \<le> 16" using Suc.prems(2) by simp
  from proxy_check_cached[OF Suc.prems(1) t16 Suc.prems(3)] ch
  have a: "a = (1 \<le> m)"
    and e: "map_of (rateLimitCache st1) (''proxy_rate_limit:'' @ u)
             = Some \<lparr>tokens = Num (if 1 \<le> m then of_nat m - 1 else of_nat m),
                     lastRefill = now, lastUpdate = now\<rparr>"
    by simp_all
  have e': "map_of (rateLimitCache st1) (''proxy_rate_limit:'' @ u)
             = Some \<lparr>tokens = Num (of_nat (m - 1)), lastRefill = now, lastUpdate = now\<rparr>"
    using e by (cases m) simp_all
  have m1: "m - 1 \<le> 16" using Suc.prems(2) by simp
  note ih = Suc.IH[OF e' m1 Suc.prems(3)]
  obtain as st2 where rest: "proxyChecks n u now kv st1 = (as, st2)"
    by (cases "proxyChecks n u now kv st1")
  with ih have as: "as = replicate (min n (m - 1)) True @ replicate (n - (m - 1)) False"
    and fin: "map_of (rateLimitCache st2) (''proxy_rate_limit:'' @ u)
             = Some \<lparr>tokens = Num (of_nat (m - 1 - n)), lastRefill = now, lastUpdate = now\<rparr>"
    by simp_all
  have res: "proxyChecks (Suc n) u now kv st = (a # as, st2)"
    using ch rest by simp
  show ?case
  proof (cases m)
    case 0
    with a as fin res show ?thesis by (simp add: replicate_Suc[symmetric] del: replicate_Suc)
  next
    case (Suc k)
    with a as fin res show ?thesis by simp
  qed
qed

lemma proxy_check_fresh:
  assumes "map_of (rateLimitCache st) (''proxy_rate_limit:'' @ u) = None"
    and "kv_get kv = KvValue None \<or> kv_get kv = KvThrows" and "\<not> kv_put_throws kv"
  shows "fst (checkProxyRateLimit u now kv st) = True
         \<and> map_of (rateLimitCache (snd (checkProxyRateLimit u now kv st))) (''proxy_rate_limit:'' @ u)
             = Some \<lparr>tokens = Num 15, lastRefill = now, lastUpdate = now\<rparr>"
  using assms
  by (auto simp: checkProxyRateLimit_def bucketCheck_def cacheSet_def kvPut_def Let_def
        PROXY_MAX_TOKENS_def num_lt_def num_sub_def update_conv')

lemma proxy_check_after_wait:
  assumes c: "map_of (rateLimitCache st) (''proxy_rate_limit:'' @ u)
                = Some \<lparr>tokens = Num 0, lastRefill = t0, lastUpdate = t0\<rparr>"
    and w: "t0 + 125 \<le> now"
    and kv: "now - t0 < RATE_CACHE_TTL \<or> kv_get kv = KvValue None \<or> kv_get kv = KvThrows
             \<or> kv_get kv = KvValue (Some \<lparr>kv_tokens = Num 0, kv_lastRefill = t0\<rparr>)"
    and p: "\<not> kv_put_throws kv"
  shows "fst (checkProxyRateLimit u now kv st) = True"
proof -
  have "(1::rat) \<le> of_int (now - t0) * 8 / 1000"
  proof -
    have "125 \<le> now - t0" using w by simp
    then have "(125::rat) \<le> of_int (now - t0)" by linarith
    then show ?thesis by simp
  qed
  then have r: "\<not> num_lt (refill (Num PROXY_MAX_TOKENS) (Num PROXY_TOKENS_PER_SECOND) now (Num 0) t0) (Num 1)"
    by (simp add: refill_def Math_min_def num_add_def num_mul_def num_lt_def
          PROXY_MAX_TOKENS_def PROXY_TOKENS_PER_SECOND_def not_less)
  have m: "\<not> num_lt (Num PROXY_MAX_TOKENS) (Num 1)"
    by (simp add: num_lt_def PROXY_MAX_TOKENS_def)
  show ?thesis
    using c kv p r m
    by (auto simp: checkProxyRateLimit_def bucketCheck_def Let_def)
qed

text \<open>
  The proxy dimension, whose capacity is the constant 16 and whose rate is 8 per second:
  from a bucket with no stored state, 16 consecutive checks at one clock reading are
  allowed, the 17th is denied and leaves the token count at 0, and a check at least
  125 ms later is allowed again.
\<close>

theorem proxy_bucket_capacity:
  assumes "map_of (rateLimitCache st) (''proxy_rate_limit:'' @ u) = None"
    and "kv_get kv = KvValue None \<or> kv_get kv = KvThrows"
    and "\<not> kv_put_throws kv"
    and "now + 125 \<le> now'"
    and "now' - now < RATE_CACHE_TTL \<or> kv_get kv' = KvValue None \<or> kv_get kv' = KvThrows
         \<or> kv_get kv' = KvValue (Some \<lparr>kv_tokens = Num 0, kv_lastRefill = now\<rparr>)"
    and "\<not> kv_put_throws kv'"
  shows "fst (proxyChecks 17 u now kv st) = replicate 16 True @ [False]
         \<and> map_of (rateLimitCache (snd (proxyChecks 17 u now kv st))) (''proxy_rate_limit:'' @ u)
             = Some \<lparr>tokens = Num 0, lastRefill = now, lastUpdate = now\<rparr>
         \<and> fst (checkProxyRateLimit u now' kv' (snd (proxyChecks 17 u now kv st))) = True"
proof -
  obtain a st1 where ch: "checkProxyRateLimit u now kv st = (a, st1)"
    by (cases "checkProxyRateLimit u now kv st")
  from proxy_check_fresh[OF assms(1,2,3), of now] ch
  have a: "a = True"
    and e: "map_of (rateLimitCache st1) (''proxy_rate_limit:'' @ u)
             = Some \<lparr>tokens = Num (of_nat 15), lastRefill = now, lastUpdate = now\<rparr>"
    by simp_all
  obtain as st2 where rest: "proxyChecks 16 u now kv st1 = (as, st2)"
    by (cases "proxyChecks 16 u now kv st1")
  from proxyChecks_cached[OF e _ assms(3), of 16] rest
  have as: "as = replicate 15 True @ [False]"
    and fin: "map_of (rateLimitCache st2) (''proxy_rate_limit:'' @ u)
             = Some \<lparr>tokens = Num 0, lastRefill = now, lastUpdate = now\<rparr>"
    by simp_all
  have res: "proxyChecks 17 u now kv st = (a # as, st2)"
    using ch rest proxyChecks.simps(2)[of 16 u now kv st] by simp
  have "fst (checkProxyRateLimit u now' kv' st2) = True"
    by (rule proxy_check_after_wait[OF fin assms(4,5,6)])
  with res a as fin show ?thesis
    by (simp add: replicate_Suc[symmetric] del: replicate_Suc)
qed

theorem proxy_bucket_capacity_witness:
  "fst (proxyChecks 17 ''https://p.example/jsonrpc'' 1700000000000
          \<lparr>kv_get = KvValue None, kv_put_throws = False\<rparr> \<lparr>rateLimitCache = [], kvPuts = []\<rparr>)
     = replicate 16 True @ [False]
   \<and> fst (checkProxyRateLimit ''https://p.example/jsonrpc'' 1700000000125
          \<lparr>kv_get = KvValue None, kv_put_throws = False\<rparr>
          (snd (proxyChecks 17 ''https://p.example/jsonrpc'' 1700000000000
             \<lparr>kv_get = KvValue None, kv_put_throws = False\<rparr> \<lparr>rateLimitCache = [], kvPuts = []\<rparr>)))
     = True"
  using proxy_bucket_capacity[of "\<lparr>rateLimitCache = [], kvPuts = []\<rparr>" "''https://p.example/jsonrpc''"
          "\<lparr>kv_get = KvValue None, kv_put_throws = False\<rparr>" 1700000000000 1700000000125
          "\<lparr>kv_get = KvValue None, kv_put_throws = False\<rparr>"]
  by (simp add: RATE_CACHE_TTL_def)

subsection \<open>Retry loop, continued\<close>

lemma retry_loop_counted:
  assumes fails: "\<forall>i<k. \<exists>e. f i = Inl e \<and> isRetryable options e"
    and ok: "f k = Inr v" and lim: "int k < maxRetries options" and ak: "a \<le> k"
  shows "retry_loop (counted f) options a le a ds
           = (Inr v, Suc k, ds @ map (backoffDelay options) [a..<k])"
  using ak
proof (induction "k - a" arbitrary: a le ds)
  case 0
  then have "a = k" by simp
  with ok lim show ?case by (simp add: counted_def)
next
  case (Suc d)
  then have ak: "a < k" by simp
  then obtain e where e: "f a = Inl e" "isRetryable options e" using fails by blast
  have la: "int a < maxRetries options" using ak lim by simp
  have d: "d = k - Suc a" using Suc.hyps(2) by simp
  have sa: "Suc a \<le> k" using ak by simp
  have up: "[a..<k] = a # [Suc a..<k]" using ak by (simp add: upt_conv_Cons)
  have "retry_loop (counted f) options a le a ds
          = retry_loop (counted f) options (Suc a) (Some e) (Suc a) (ds @ [backoffDelay options a])"
    using la e by (subst retry_loop.simps) (simp add: counted_def)
  also have "\<dots> = (Inr v, Suc k, (ds @ [backoffDelay options a]) @ map (backoffDelay options) [Suc a..<k])"
    by (rule Suc.hyps(1)[OF d sa])
  finally show ?case by (simp add: up)
qed

lemma retry_loop_bound:
  "retry_loop (counted f) options a le n ds = (r, n', ds') \<Longrightarrow> a \<le> n
     \<Longrightarrow> int n' - int n \<le> max 0 (maxRetries options - int a)"
proof (induction "counted f" options a le n ds rule: retry_loop.induct)
  case (1 options k lastError s ds)
  show ?case
  proof (cases "int k < maxRetries options")
    case False
    with "1.prems" show ?thesis by simp
  next
    case True
    show ?thesis
    proof (cases "f s")
      case (Inr v)
      with True "1.prems" show ?thesis by (auto simp: counted_def)
    next
      case (Inl e)
      show ?thesis
      proof (cases "isRetryable options e")
        case False
        with True Inl "1.prems" show ?thesis by (auto simp: counted_def)
      next
        case rt: True
        have c: "(Inl e, Suc s) = counted f s" using Inl by (simp add: counted_def)
        from True Inl rt "1.prems"
        have "retry_loop (counted f) options (Suc k) (Some e) (Suc s)
                (ds @ [backoffDelay options k]) = (r, n', ds')"
          by (simp add: counted_def)
        from "1.hyps"[OF True c refl rt this] "1.prems"(2) True
        show ?thesis by simp
      qed
    qed
  qed
qed

text \<open>
  What the loop does: the operation is invoked at most \<open>max(0, maxRetries)\<close> times, and
  \<open>k < maxRetries\<close> retryable failures followed by a success give \<open>k + 1\<close> invocations,
  the successful result, and the delays of the attempts \<open>0 .. k - 1\<close>.
\<close>

theorem retry_invocations:
  "(fst (snd (retryWithBackoff (counted f) options 0)) \<le> nat (maxRetries options))
   \<and> ((\<forall>i<k. \<exists>e. f i = Inl e \<and> isRetryable options e) \<and> f k = Inr v \<and> int k < maxRetries options
        \<longrightarrow> retryWithBackoff (counted f) options 0
              = (Inr v, Suc k, map (backoffDelay options) [0..<k]))"
proof -
  obtain r n' ds' where e: "retry_loop (counted f) options 0 None 0 [] = (r, n', ds')"
    by (cases "retry_loop (counted f) options 0 None 0 []") 
  from retry_loop_bound[OF e] have "n' \<le> nat (maxRetries options)" by simp
  with e have a: "fst (snd (retryWithBackoff (counted f) options 0)) \<le> nat (maxRetries options)"
    by (simp add: retryWithBackoff_def)
  show ?thesis
    using a retry_loop_counted[of k f options v 0 None "[]"]
    by (auto simp: retryWithBackoff_def)
qed

theorem retry_invocations_witness:
  "retryWithBackoff (counted (\<lambda>n. if n < 2 then Inl ''transient'' else Inr ''ok''))
      \<lparr>maxRetries = 3, initialDelay = 1000, backoffFactor = 2, isRetryable = (\<lambda>e. True)\<rparr> 0
    = (Inr ''ok'', 3, [1000, 2000])"
  using retry_invocations[of "\<lambda>n. if n < 2 then Inl ''transient'' else Inr ''ok''"
          "\<lparr>maxRetries = 3, initialDelay = 1000, backoffFactor = 2, isRetryable = (\<lambda>e. True)\<rparr>"
          2 "''ok''"]
  by (simp add: backoffDelay_def numeral_2_eq_2 upt_rec)

end
